theory Spec2Isabelle
  imports Complex_Main
begin

section \<open>The image labeller: S3 upload, Rekognition labels, JSON and CSV reports\<close>

text \<open>
  A shallow embedding of \<^verbatim>\<open>src/app.py\<close>. Python strings are \<open>string\<close>, the
  dictionaries that boto3 returns are maps or records (a field read by subscript is a
  record field, a field read with \<^verbatim>\<open>.get(k, default)\<close> is optional), floats are
  modelled by the real number they denote, and everything a function does besides
  returning (printing, uploading, writing files, sleeping, calling the remote service)
  is an update of an explicit \<open>world\<close> that each function takes and returns.
  \<^verbatim>\<open>sys.exit(1)\<close> and an exception that nothing catches are values of type \<open>exit\<close>.
\<close>

subsection \<open>Errors, log lines and the world\<close>

text \<open>
  A botocore \<^verbatim>\<open>ClientError\<close> carries the parsed error response of the service, a
  dictionary of dictionaries: \<^verbatim>\<open>e.response["Error"]["Code"]\<close>.
\<close>

datatype ClientError = ClientError (response: "string \<rightharpoonup> (string \<rightharpoonup> string)")

datatype py_exn = ValueError

datatype exit = SysExit int | Uncaught py_exn

text \<open>A Python function without a \<^verbatim>\<open>return\<close> statement returns \<^verbatim>\<open>None\<close>.\<close>

datatype py_value = PyNone | PyInt int

text \<open>One constructor for each \<^verbatim>\<open>print\<close> of the program, with the values it formats.\<close>

datatype log_line =
    CreatedBucket string
  | BucketExistsOwned string
  | CouldNotCreateBucket ClientError
  | NotAFolder string
  | Uploaded string string
  | NoImagesFound
  | UploadedCount nat
  | NoImagesInS3
  | FoundImages nat string string
  | Labeled nat nat string
  | RekognitionFailed string ClientError
  | SavedJSON string
  | SavedCSV string

text \<open>A cell of a CSV row is a string or a number, as handed to \<^verbatim>\<open>writer.writerow\<close>.\<close>

datatype cell = S string | F real

record label =
  name :: string
  confidence :: real
  parents :: "string list"

record label_result =
  image :: string
  labels :: "label list"

datatype document = CsvDoc "cell list list" | JsonDoc "label_result list"

text \<open>
  What the process can observe of time: the calls to the labelling service and the
  calls to \<^verbatim>\<open>time.sleep\<close> (in seconds), in the order they happen.
\<close>

datatype event = DetectLabelsCall string | Sleep real

record world =
  stdout :: "log_line list"
  s3_uploads :: "(string \<times> string \<times> string) list"
  fs_dirs :: "string set"
  fs_files :: "string \<rightharpoonup> document"
  rekog_calls :: nat
  timeline :: "event list"

definition print :: "log_line \<Rightarrow> world \<Rightarrow> world" where
  "print l w = w\<lparr>stdout := stdout w @ [l]\<rparr>"

definition world0 :: world where
  "world0 = \<lparr>stdout = [], s3_uploads = [], fs_dirs = {}, fs_files = Map.empty,
     rekog_calls = 0, timeline = []\<rparr>"

subsection \<open>The storage client\<close>

text \<open>
  The two calls of the S3 client whose answer the program reads.
  \<open>create_bucket\<close> takes the bucket and the optional location constraint and either
  returns or raises \<^verbatim>\<open>ClientError\<close>; the paginator of \<^verbatim>\<open>list_objects_v2\<close> yields
  pages, each with an optional \<^verbatim>\<open>Contents\<close> list of objects.
\<close>

record s3_object =
  Key :: string

record s3_page =
  Contents :: "s3_object list option"

record s3_client =
  create_bucket :: "string \<Rightarrow> string option \<Rightarrow> ClientError + unit"
  paginate :: "string \<Rightarrow> string \<Rightarrow> s3_page list"

subsection \<open>\<^verbatim>\<open>ensure_bucket\<close>\<close>

text \<open>\<^verbatim>\<open>e.response.get("Error", {}).get("Code", "")\<close>\<close>

definition error_code :: "ClientError \<Rightarrow> string" where
  "error_code e =
     (case response e ''Error'' of
        None \<Rightarrow> ''''
      | Some d \<Rightarrow> (case d ''Code'' of None \<Rightarrow> '''' | Some c \<Rightarrow> c))"

text \<open>The request the provisioner sends: no location constraint in \<^verbatim>\<open>us-east-1\<close>.\<close>

definition create_bucket_call :: "s3_client \<Rightarrow> string \<Rightarrow> string \<Rightarrow> ClientError + unit" where
  "create_bucket_call s3c bucket region =
     (if region = ''us-east-1'' then create_bucket s3c bucket None
      else create_bucket s3c bucket (Some region))"

definition ensure_bucket :: "s3_client \<Rightarrow> string \<Rightarrow> string \<Rightarrow> world \<Rightarrow> (exit + py_value) \<times> world" where
  "ensure_bucket s3c bucket region w =
     (case create_bucket_call s3c bucket region of
        Inr _ \<Rightarrow> (Inr PyNone, print (CreatedBucket bucket) w)
      | Inl e \<Rightarrow>
          (let code = error_code e in
           if code \<in> {''BucketAlreadyOwnedByYou'', ''BucketAlreadyExists''}
           then (Inr PyNone, print (BucketExistsOwned bucket) w)
           else (Inl (SysExit 1), print (CouldNotCreateBucket e) w)))"

subsection \<open>Strings and POSIX paths\<close>

text \<open>
  The functions of \<^verbatim>\<open>str\<close> and \<^verbatim>\<open>os.path\<close> (\<^verbatim>\<open>posixpath\<close>: the program runs
  under Linux or WSL) that the program calls, written out from the library.
\<close>

definition lower_char :: "char \<Rightarrow> char" where
  "lower_char c =
     (let n = (of_char c :: nat) in if 65 \<le> n \<and> n \<le> 90 then char_of (n + 32) else c)"

definition lower :: "string \<Rightarrow> string" where
  "lower s = map lower_char s"

text \<open>\<^verbatim>\<open>s.replace("\\", "/")\<close>; the backslash is character \<open>0x5C\<close>.\<close>

definition replace_backslash :: "string \<Rightarrow> string" where
  "replace_backslash s = map (\<lambda>c. if c = CHR 0x5C then CHR ''/'' else c) s"

text \<open>\<^verbatim>\<open>sep.join(xs)\<close>\<close>

fun str_join :: "string \<Rightarrow> string list \<Rightarrow> string" where
  "str_join sep [] = []"
| "str_join sep [x] = x"
| "str_join sep (x # y # ys) = x @ sep @ str_join sep (y # ys)"

text \<open>\<^verbatim>\<open>p.split("/")\<close>: the pieces between the slashes, the empty ones too.\<close>

fun split_sep :: "string \<Rightarrow> string list" where
  "split_sep [] = [[]]"
| "split_sep (c # cs) =
     (if c = CHR ''/'' then [] # split_sep cs
      else (case split_sep cs of [] \<Rightarrow> [[c]] | x # xs \<Rightarrow> (c # x) # xs))"

text \<open>\<^verbatim>\<open>p.rfind(c)\<close>: the index of the last \<open>c\<close>, or \<open>-1\<close>.\<close>

fun rfind_from :: "string \<Rightarrow> char \<Rightarrow> int \<Rightarrow> int \<Rightarrow> int" where
  "rfind_from [] c i found = found"
| "rfind_from (x # xs) c i found = rfind_from xs c (i + 1) (if x = c then i else found)"

definition rfind :: "string \<Rightarrow> char \<Rightarrow> int" where
  "rfind p c = rfind_from p c 0 (- 1)"

text \<open>
  \<^verbatim>\<open>os.path.splitext\<close>: the extension starts at the last dot of the last path
  component, unless that component has only dots before it.
\<close>

definition splitext :: "string \<Rightarrow> string \<times> string" where
  "splitext p =
     (let sepIndex = rfind p (CHR ''/'');
          dotIndex = rfind p (CHR ''.'')
      in if dotIndex > sepIndex
            \<and> list_ex (\<lambda>i. p ! nat i \<noteq> CHR ''.'') [sepIndex + 1 .. dotIndex - 1]
         then (take (nat dotIndex) p, drop (nat dotIndex) p)
         else (p, []))"

definition isabs :: "string \<Rightarrow> bool" where
  "isabs p = (case p of [] \<Rightarrow> False | c # _ \<Rightarrow> c = CHR ''/'')"

text \<open>\<^verbatim>\<open>os.path.join(a, b)\<close>, and \<^verbatim>\<open>os.path.join(a, *p)\<close>.\<close>

definition join :: "string \<Rightarrow> string \<Rightarrow> string" where
  "join a b =
     (if isabs b then b
      else if a = [] \<or> last a = CHR ''/'' then a @ b
      else a @ ''/'' @ b)"

definition join_all :: "string \<Rightarrow> string list \<Rightarrow> string" where
  "join_all a p = foldl join a p"

text \<open>\<^verbatim>\<open>os.path.normpath\<close>: the loop over the components, then the function.\<close>

fun norm_comps :: "bool \<Rightarrow> string list \<Rightarrow> string list \<Rightarrow> string list" where
  "norm_comps initial_slashes [] new_comps = new_comps"
| "norm_comps initial_slashes (comp' # comps) new_comps =
     (if comp' = [] \<or> comp' = ''.'' then norm_comps initial_slashes comps new_comps
      else if comp' \<noteq> ''..'' \<or> (\<not> initial_slashes \<and> new_comps = [])
              \<or> (new_comps \<noteq> [] \<and> last new_comps = ''..'')
      then norm_comps initial_slashes comps (new_comps @ [comp'])
      else if new_comps \<noteq> [] then norm_comps initial_slashes comps (butlast new_comps)
      else norm_comps initial_slashes comps new_comps)"

definition normpath :: "string \<Rightarrow> string" where
  "normpath p =
     (if p = [] then ''.''
      else
        (let initial_slashes =
               (if isabs p then (if take 2 p = ''//'' \<and> take 3 p \<noteq> ''///'' then 2 else 1)
                else (0::nat));
             comps = norm_comps (initial_slashes \<noteq> 0) (split_sep p) [];
             path = replicate initial_slashes (CHR ''/'') @ str_join ''/'' comps
         in if path = [] then ''.'' else path))"

text \<open>\<^verbatim>\<open>os.path.abspath\<close>, with the working directory of the process as a parameter.\<close>

definition abspath :: "string \<Rightarrow> string \<Rightarrow> string" where
  "abspath cwd p = normpath (if isabs p then p else join cwd p)"

fun commonprefix :: "'a list \<Rightarrow> 'a list \<Rightarrow> 'a list" where
  "commonprefix (x # xs) (y # ys) = (if x = y then x # commonprefix xs ys else [])"
| "commonprefix xs ys = []"

text \<open>\<^verbatim>\<open>os.path.relpath(path, start)\<close>; it raises \<^verbatim>\<open>ValueError\<close> on an empty path.\<close>

definition relpath :: "string \<Rightarrow> string \<Rightarrow> string \<Rightarrow> py_exn + string" where
  "relpath cwd path start =
     (if path = [] then Inl ValueError
      else
        (let start_list = filter (\<lambda>x. x \<noteq> []) (split_sep (abspath cwd start));
             path_list = filter (\<lambda>x. x \<noteq> []) (split_sep (abspath cwd path));
             i = length (commonprefix start_list path_list);
             rel_list = replicate (length start_list - i) ''..'' @ drop i path_list
         in (case rel_list of [] \<Rightarrow> Inr ''.'' | a # p \<Rightarrow> Inr (join_all a p))))"

definition IMAGE_EXTS :: "string set" where
  "IMAGE_EXTS = {''.jpg'', ''.jpeg'', ''.png''}"

subsection \<open>\<^verbatim>\<open>upload_folder_to_s3\<close>\<close>

text \<open>
  What the program asks of the local file system: the working directory,
  \<^verbatim>\<open>os.path.isdir\<close>, and \<^verbatim>\<open>os.walk\<close>, which yields for each directory of the tree its
  path, its subdirectories and its files.
\<close>

record os_env =
  getcwd :: string
  isdir :: "string \<Rightarrow> bool"
  walk :: "string \<Rightarrow> (string \<times> string list \<times> string list) list"

text \<open>\<^verbatim>\<open>s3_client.upload_file(full, bucket, key)\<close>\<close>

definition upload_file :: "string \<Rightarrow> string \<Rightarrow> string \<Rightarrow> world \<Rightarrow> world" where
  "upload_file full bucket key w = w\<lparr>s3_uploads := s3_uploads w @ [(full, bucket, key)]\<rparr>"

text \<open>The key under which the file \<open>f\<close> of directory \<open>root'\<close> is stored.\<close>

definition object_key :: "os_env \<Rightarrow> string \<Rightarrow> string \<Rightarrow> string \<Rightarrow> string \<Rightarrow> py_exn + string" where
  "object_key os folder prefix root' f =
     (case relpath (getcwd os) (join root' f) folder of
        Inl x \<Rightarrow> Inl x
      | Inr rel \<Rightarrow> Inr (replace_backslash (join prefix rel)))"

text \<open>The inner loop, over the files of one directory.\<close>

fun upload_files ::
  "os_env \<Rightarrow> string \<Rightarrow> string \<Rightarrow> string \<Rightarrow> string \<Rightarrow> string list \<Rightarrow> nat \<Rightarrow> world
     \<Rightarrow> (exit + nat) \<times> world" where
  "upload_files os folder bucket prefix root' [] uploaded w = (Inr uploaded, w)"
| "upload_files os folder bucket prefix root' (f # files) uploaded w =
     (let ext = lower (snd (splitext f)) in
      if ext \<notin> IMAGE_EXTS then upload_files os folder bucket prefix root' files uploaded w
      else
        (let full = join root' f in
         case object_key os folder prefix root' f of
           Inl x \<Rightarrow> (Inl (Uncaught x), w)
         | Inr key \<Rightarrow>
             upload_files os folder bucket prefix root' files (uploaded + 1)
               (print (Uploaded bucket key) (upload_file full bucket key w))))"

text \<open>The outer loop, over the directories that \<^verbatim>\<open>os.walk\<close> yields.\<close>

fun upload_walk ::
  "os_env \<Rightarrow> string \<Rightarrow> string \<Rightarrow> string \<Rightarrow> (string \<times> string list \<times> string list) list \<Rightarrow> nat
     \<Rightarrow> world \<Rightarrow> (exit + nat) \<times> world" where
  "upload_walk os folder bucket prefix [] uploaded w = (Inr uploaded, w)"
| "upload_walk os folder bucket prefix ((root', dirs, files) # rest) uploaded w =
     (case upload_files os folder bucket prefix root' files uploaded w of
        (Inl x, w1) \<Rightarrow> (Inl x, w1)
      | (Inr n, w1) \<Rightarrow> upload_walk os folder bucket prefix rest n w1)"

definition upload_folder_to_s3 ::
  "os_env \<Rightarrow> string \<Rightarrow> string \<Rightarrow> string \<Rightarrow> world \<Rightarrow> (exit + py_value) \<times> world" where
  "upload_folder_to_s3 os folder0 bucket prefix w =
     (let folder = abspath (getcwd os) folder0 in
      if \<not> isdir os folder then (Inl (SysExit 1), print (NotAFolder folder) w)
      else
        (case upload_walk os folder bucket prefix (walk os folder) 0 w of
           (Inl x, w1) \<Rightarrow> (Inl x, w1)
         | (Inr uploaded, w1) \<Rightarrow>
             if uploaded = 0 then (Inl (SysExit 1), print NoImagesFound w1)
             else (Inr PyNone, print (UploadedCount uploaded) w1)))"

subsection \<open>\<^verbatim>\<open>list_s3_images\<close>\<close>

fun list_page :: "s3_object list \<Rightarrow> string list \<Rightarrow> string list" where
  "list_page [] keys = keys"
| "list_page (obj # objs) keys =
     (let key = Key obj; ext = lower (snd (splitext key)) in
      if ext \<in> IMAGE_EXTS then list_page objs (keys @ [key]) else list_page objs keys)"

fun list_pages :: "s3_page list \<Rightarrow> string list \<Rightarrow> string list" where
  "list_pages [] keys = keys"
| "list_pages (page # pages) keys =
     list_pages pages
       (list_page (case Contents page of None \<Rightarrow> [] | Some objs \<Rightarrow> objs) keys)"

definition list_s3_images ::
  "s3_client \<Rightarrow> string \<Rightarrow> string \<Rightarrow> world \<Rightarrow> (exit + string list) \<times> world" where
  "list_s3_images s3c bucket prefix w =
     (let keys = list_pages (paginate s3c bucket prefix) [] in
      if keys = [] then (Inl (SysExit 1), print NoImagesInS3 w)
      else (Inr keys, print (FoundImages (length keys) bucket prefix) w))"

subsection \<open>\<^verbatim>\<open>detect_labels_for_s3_object\<close>\<close>

text \<open>
  The request and the response of Rekognition's \<^verbatim>\<open>DetectLabels\<close>. The program
  reads \<^verbatim>\<open>Name\<close> and \<^verbatim>\<open>Confidence\<close> by subscript, \<^verbatim>\<open>Parents\<close> and \<^verbatim>\<open>Labels\<close>
  with a default.
\<close>

record detect_request =
  S3Object_Bucket :: string
  S3Object_Name :: string
  MaxLabels :: int
  MinConfidence :: real

record rekog_parent =
  Parent_Name :: string

record rekog_label =
  Label_Name :: string
  Label_Confidence :: real
  Label_Parents :: "rekog_parent list option"

record detect_response =
  Labels :: "rekog_label list option"

text \<open>
  The labelling client: what the service answers to a request, which may depend on
  how many calls went before (the first argument), so that the same image can fail
  once and succeed later. The answer is a response or a \<^verbatim>\<open>ClientError\<close>.
\<close>

type_synonym rekog_client = "nat \<Rightarrow> detect_request \<Rightarrow> ClientError + detect_response"

text \<open>
  \<^verbatim>\<open>round(x, 2)\<close>: to the nearest multiple of \<open>1/100\<close>, a tie going to the even
  one. Python rounds the exact value of the float this way and returns the float
  nearest to that decimal, which prints as the decimal itself; the model keeps the
  decimal.
\<close>

definition round_half_even :: "real \<Rightarrow> int" where
  "round_half_even x =
     (let f = \<lfloor>x\<rfloor>; d = x - of_int f in
      if d < 1 / 2 then f
      else if d > 1 / 2 then f + 1
      else if even f then f else f + 1)"

definition round2 :: "real \<Rightarrow> real" where
  "round2 x = of_int (round_half_even (x * 100)) / 100"

definition image_uri :: "string \<Rightarrow> string \<Rightarrow> string" where
  "image_uri bucket key = ''s3://'' @ bucket @ ''/'' @ key"

definition detect_labels_request :: "string \<Rightarrow> string \<Rightarrow> int \<Rightarrow> real \<Rightarrow> detect_request" where
  "detect_labels_request bucket key max_labels min_conf =
     \<lparr>S3Object_Bucket = bucket, S3Object_Name = key,
      MaxLabels = max_labels, MinConfidence = min_conf\<rparr>"

text \<open>\<^verbatim>\<open>resp.get("Labels", [])\<close> and \<^verbatim>\<open>lab.get("Parents", [])\<close>\<close>

definition get_Labels :: "detect_response \<Rightarrow> rekog_label list" where
  "get_Labels resp = (case Labels resp of None \<Rightarrow> [] | Some ls \<Rightarrow> ls)"

definition get_Parents :: "rekog_label \<Rightarrow> rekog_parent list" where
  "get_Parents lab = (case Label_Parents lab of None \<Rightarrow> [] | Some ps \<Rightarrow> ps)"

text \<open>The dictionary built from a response.\<close>

definition normalize_label :: "rekog_label \<Rightarrow> label" where
  "normalize_label lab =
     \<lparr>name = Label_Name lab,
      confidence = round2 (Label_Confidence lab),
      parents = map Parent_Name (get_Parents lab)\<rparr>"

definition normalize_response :: "string \<Rightarrow> string \<Rightarrow> detect_response \<Rightarrow> label_result" where
  "normalize_response bucket key resp =
     \<lparr>image = image_uri bucket key,
      labels = map normalize_label (get_Labels resp)\<rparr>"

definition detect_labels_for_s3_object ::
  "rekog_client \<Rightarrow> string \<Rightarrow> string \<Rightarrow> int \<Rightarrow> real \<Rightarrow> world
     \<Rightarrow> (ClientError + label_result) \<times> world" where
  "detect_labels_for_s3_object rekog_client bucket key max_labels min_conf w =
     (let w1 = w\<lparr>rekog_calls := rekog_calls w + 1,
                  timeline := timeline w @ [DetectLabelsCall key]\<rparr> in
      case rekog_client (rekog_calls w) (detect_labels_request bucket key max_labels min_conf) of
        Inl e \<Rightarrow> (Inl e, w1)
      | Inr resp \<Rightarrow> (Inr (normalize_response bucket key resp), w1))"

subsection \<open>\<^verbatim>\<open>bulk_detect_and_save\<close>\<close>

definition makedirs :: "string \<Rightarrow> world \<Rightarrow> world" where
  "makedirs d w = w\<lparr>fs_dirs := insert d (fs_dirs w)\<rparr>"

definition write_file :: "string \<Rightarrow> document \<Rightarrow> world \<Rightarrow> world" where
  "write_file path doc w = w\<lparr>fs_files := (fs_files w)(path \<mapsto> doc)\<rparr>"

definition sleep :: "real \<Rightarrow> world \<Rightarrow> world" where
  "sleep secs w = w\<lparr>timeline := timeline w @ [Sleep secs]\<rparr>"

definition csv_header :: "cell list" where
  "csv_header = [S ''image'', S ''label'', S ''confidence'', S ''parents'']"

text \<open>The row written for one label of a result.\<close>

definition csv_row :: "label_result \<Rightarrow> label \<Rightarrow> cell list" where
  "csv_row res lab =
     [S (image res), S (name lab), F (confidence lab), S (str_join '';'' (parents lab))]"

text \<open>
  The loop over \<^verbatim>\<open>enumerate(keys, 1)\<close>. Its state is the list \<open>results\<close>, the rows
  written to the open CSV file so far, and the world. \<open>n_keys\<close> is \<^verbatim>\<open>len(keys)\<close>.
\<close>

fun detect_loop ::
  "rekog_client \<Rightarrow> string \<Rightarrow> int \<Rightarrow> real \<Rightarrow> nat \<Rightarrow> (nat \<times> string) list
     \<Rightarrow> label_result list \<times> cell list list \<times> world
     \<Rightarrow> label_result list \<times> cell list list \<times> world" where
  "detect_loop rekog_client bucket max_labels min_conf n_keys [] st = st"
| "detect_loop rekog_client bucket max_labels min_conf n_keys ((i, key) # rest) (results, fcsv, w) =
     (case detect_labels_for_s3_object rekog_client bucket key max_labels min_conf w of
        (Inr res, w1) \<Rightarrow>
          detect_loop rekog_client bucket max_labels min_conf n_keys rest
            (results @ [res],
             fcsv @ map (csv_row res) (labels res),
             sleep (1 / 10) (print (Labeled i n_keys key) w1))
      | (Inl e, w1) \<Rightarrow>
          detect_loop rekog_client bucket max_labels min_conf n_keys rest
            (results, fcsv, print (RekognitionFailed key e) w1))"

definition bulk_detect_and_save ::
  "rekog_client \<Rightarrow> string \<Rightarrow> string list \<Rightarrow> string \<Rightarrow> int \<Rightarrow> real \<Rightarrow> world
     \<Rightarrow> (string \<times> string) \<times> world" where
  "bulk_detect_and_save rekog_client bucket keys out_dir max_labels min_conf w =
     (let w1 = makedirs out_dir w;
          json_path = join out_dir ''labels.json'';
          csv_path = join out_dir ''labels.csv'';
          w2 = write_file csv_path (CsvDoc []) w1;
          (results, fcsv, w3) =
            detect_loop rekog_client bucket max_labels min_conf (length keys)
              (enumerate 1 keys) ([], [csv_header], w2);
          w4 = write_file csv_path (CsvDoc fcsv) w3;
          w5 = write_file json_path (JsonDoc results) w4;
          w6 = print (SavedJSON json_path) w5;
          w7 = print (SavedCSV csv_path) w6
      in ((json_path, csv_path), w7))"

section \<open>Describing a run\<close>

text \<open>
  The files of a walked tree that have a supported extension, each with its directory,
  in the order of the walk.
\<close>

definition supported :: "string \<Rightarrow> bool" where
  "supported f = (lower (snd (splitext f)) \<in> IMAGE_EXTS)"

definition image_files :: "(string \<times> string list \<times> string list) list \<Rightarrow> (string \<times> string) list" where
  "image_files tree =
     concat (map (\<lambda>(root', dirs, files). map (Pair root') (filter supported files)) tree)"

text \<open>
  An upload with its key marked as computed without an exception, and the line the
  uploader prints for it.
\<close>

definition lift_key :: "string \<times> string \<times> string \<Rightarrow> string \<times> string \<times> (py_exn + string)" where
  "lift_key u = (case u of (full, bucket, key) \<Rightarrow> (full, bucket, Inr key))"

definition uploaded_line :: "string \<times> string \<times> string \<Rightarrow> log_line" where
  "uploaded_line u = (case u of (full, bucket, key) \<Rightarrow> Uploaded bucket key)"

text \<open>The keys of all objects on the pages of a listing, in order.\<close>

definition page_keys :: "s3_page list \<Rightarrow> string list" where
  "page_keys pages =
     concat (map (\<lambda>page. map Key (case Contents page of None \<Rightarrow> [] | Some objs \<Rightarrow> objs)) pages)"

text \<open>
  The answers of the labelling service over a batch: each key with the answer to
  its call, the first call being call number \<open>n\<close>.
\<close>

fun run_answers ::
  "rekog_client \<Rightarrow> string \<Rightarrow> int \<Rightarrow> real \<Rightarrow> nat \<Rightarrow> string list
     \<Rightarrow> (string \<times> (ClientError + detect_response)) list" where
  "run_answers rekog_client bucket max_labels min_conf n [] = []"
| "run_answers rekog_client bucket max_labels min_conf n (key # keys) =
     (key, rekog_client n (detect_labels_request bucket key max_labels min_conf))
       # run_answers rekog_client bucket max_labels min_conf (Suc n) keys"

text \<open>The results of the answered calls, in order.\<close>

fun successes :: "string \<Rightarrow> (string \<times> (ClientError + detect_response)) list \<Rightarrow> label_result list" where
  "successes bucket [] = []"
| "successes bucket ((key, Inl e) # answers) = successes bucket answers"
| "successes bucket ((key, Inr resp) # answers) =
     normalize_response bucket key resp # successes bucket answers"

text \<open>The keys whose call was answered with a response.\<close>

fun answered_keys :: "(string \<times> (ClientError + detect_response)) list \<Rightarrow> string list" where
  "answered_keys [] = []"
| "answered_keys ((key, Inl e) # answers) = answered_keys answers"
| "answered_keys ((key, Inr resp) # answers) = key # answered_keys answers"

text \<open>The events of a batch: each call, followed by the pause the loop makes after it.\<close>

fun run_events :: "(string \<times> (ClientError + detect_response)) list \<Rightarrow> event list" where
  "run_events [] = []"
| "run_events ((key, Inl e) # answers) = DetectLabelsCall key # run_events answers"
| "run_events ((key, Inr resp) # answers) =
     DetectLabelsCall key # Sleep (1 / 10) # run_events answers"

text \<open>The rows of a list of results: one for each label of each result.\<close>

definition rows_of :: "label_result list \<Rightarrow> cell list list" where
  "rows_of results = concat (map (\<lambda>res. map (csv_row res) (labels res)) results)"

text \<open>
  A timeline is paced when any two successive calls to the labelling service have
  a pause of a tenth of a second, and nothing else, between them.
\<close>

fun paced :: "event list \<Rightarrow> bool" where
  "paced (DetectLabelsCall k # DetectLabelsCall k' # es) = False"
| "paced (DetectLabelsCall k # Sleep d # DetectLabelsCall k' # es) =
     (d = 1 / 10 \<and> paced (DetectLabelsCall k' # es))"
| "paced (DetectLabelsCall k # Sleep d # Sleep d' # es) =
     (\<not> list_ex (\<lambda>e. case e of DetectLabelsCall k' \<Rightarrow> True | Sleep x \<Rightarrow> False) es)"
| "paced (e # es) = paced es"
| "paced [] = True"

text \<open>The data rows and the records of the files a batch wrote under \<open>out_dir\<close>.\<close>

definition csv_rows_at :: "world \<Rightarrow> string \<Rightarrow> cell list list option" where
  "csv_rows_at w out_dir =
     (case fs_files w (join out_dir ''labels.csv'') of
        Some (CsvDoc (header # rows)) \<Rightarrow> if header = csv_header then Some rows else None
      | _ \<Rightarrow> None)"

definition json_at :: "world \<Rightarrow> string \<Rightarrow> label_result list option" where
  "json_at w out_dir =
     (case fs_files w (join out_dir ''labels.json'') of
        Some (JsonDoc results) \<Rightarrow> Some results
      | _ \<Rightarrow> None)"

text \<open>The keys of the calls on a timeline, and the image cell of a CSV row.\<close>

fun calls_of :: "event list \<Rightarrow> string list" where
  "calls_of [] = []"
| "calls_of (DetectLabelsCall k # es) = k # calls_of es"
| "calls_of (Sleep d # es) = calls_of es"

definition image_cell :: "cell list \<Rightarrow> string option" where
  "image_cell row = (case row of S x # cells \<Rightarrow> Some x | _ \<Rightarrow> None)"

text \<open>The labels of a JSON document, each with the result it stands in, in order.\<close>

definition json_labels :: "label_result list \<Rightarrow> (label_result \<times> label) list" where
  "json_labels results = concat (map (\<lambda>res. map (Pair res) (labels res)) results)"

subsection \<open>Concrete clients and directories\<close>

definition s3_answering :: "ClientError + unit \<Rightarrow> s3_page list \<Rightarrow> s3_client" where
  "s3_answering a pages = \<lparr>create_bucket = (\<lambda>bucket constraint. a), paginate = (\<lambda>bucket prefix. pages)\<rparr>"

definition error_with_code :: "string \<Rightarrow> ClientError" where
  "error_with_code c = ClientError [''Error'' \<mapsto> [''Code'' \<mapsto> c]]"

text \<open>A directory \<^verbatim>\<open>/data/images\<close> that holds \<^verbatim>\<open>a.jpg\<close>, \<^verbatim>\<open>b.png\<close> and \<^verbatim>\<open>c.txt\<close>.\<close>

definition os_abc :: os_env where
  "os_abc =
     \<lparr>getcwd = ''/home/user'',
      isdir = (\<lambda>p. p = ''/data/images''),
      walk = (\<lambda>p. if p = ''/data/images''
                    then [(''/data/images'', [], [''a.jpg'', ''b.png'', ''c.txt''])] else [])\<rparr>"

text \<open>A directory \<^verbatim>\<open>/data/notes\<close> that holds only \<^verbatim>\<open>c.txt\<close>.\<close>

definition os_notes :: os_env where
  "os_notes =
     \<lparr>getcwd = ''/home/user'',
      isdir = (\<lambda>p. p = ''/data/notes''),
      walk = (\<lambda>p. if p = ''/data/notes'' then [(''/data/notes'', [], [''c.txt''])] else [])\<rparr>"

text \<open>A listing of two pages, the first with one text file and the second empty.\<close>

definition pages_without_images :: "s3_page list" where
  "pages_without_images = [\<lparr>Contents = Some [\<lparr>Key = ''images/c.txt''\<rparr>]\<rparr>, \<lparr>Contents = None\<rparr>]"

text \<open>
  A response with two labels, the second without parents and with a confidence that
  lies half way between two hundredths, and a response with no label.
\<close>

definition cat_response :: detect_response where
  "cat_response =
     \<lparr>Labels = Some
        [\<lparr>Label_Name = ''Cat'', Label_Confidence = 934159 / 10000,
          Label_Parents = Some [\<lparr>Parent_Name = ''Animal''\<rparr>, \<lparr>Parent_Name = ''Pet''\<rparr>]\<rparr>,
         \<lparr>Label_Name = ''Animal'', Label_Confidence = 99125 / 1000,
          Label_Parents = None\<rparr>]\<rparr>"

definition empty_response :: detect_response where
  "empty_response = \<lparr>Labels = Some []\<rparr>"

text \<open>
  Labelling clients: one that fails on \<^verbatim>\<open>images/b.jpg\<close> and answers every other key
  with a cat, one that fails on every call, and one that finds no label.
\<close>

definition rekog_b_fails :: rekog_client where
  "rekog_b_fails n req =
     (if S3Object_Name req = ''images/b.jpg'' then Inl (error_with_code ''ThrottlingException'')
      else Inr cat_response)"

definition rekog_down :: rekog_client where
  "rekog_down n req = Inl (error_with_code ''AccessDeniedException'')"

definition rekog_blind :: rekog_client where
  "rekog_blind n req = Inr empty_response"

definition three_keys :: "string list" where
  "three_keys = [''images/a.jpg'', ''images/b.jpg'', ''images/c.jpg'']"

text \<open>The result and the rows of the response with a cat, for a key of bucket \<^verbatim>\<open>bkt\<close>.\<close>

definition cat_result :: "string \<Rightarrow> label_result" where
  "cat_result key =
     \<lparr>image = ''s3://bkt/'' @ key,
      labels = [\<lparr>name = ''Cat'', confidence = 9342 / 100, parents = [''Animal'', ''Pet'']\<rparr>,
                \<lparr>name = ''Animal'', confidence = 9912 / 100, parents = []\<rparr>]\<rparr>"

definition cat_rows :: "string \<Rightarrow> cell list list" where
  "cat_rows key =
     [[S (''s3://bkt/'' @ key), S ''Cat'', F (9342 / 100), S ''Animal;Pet''],
      [S (''s3://bkt/'' @ key), S ''Animal'', F (9912 / 100), S []]]"

section \<open>Properties\<close>

subsection \<open>Evaluating the concrete clients\<close>

lemma round2_cat: "round2 (934159 / 10000) = 9342 / 100"
  by (simp add: round2_def round_half_even_def)

lemma round2_animal: "round2 (99125 / 1000) = 9912 / 100"
  by (simp add: round2_def round_half_even_def)

lemma normalize_cat: "normalize_response ''bkt'' key cat_response = cat_result key"
  by (simp add: normalize_response_def normalize_label_def cat_response_def cat_result_def
      image_uri_def get_Labels_def get_Parents_def round2_def round_half_even_def)

lemma rows_of_cat: "rows_of (cat_result key # rs) = cat_rows key @ rows_of rs"
  by (simp add: rows_of_def cat_result_def cat_rows_def csv_row_def)

lemma rows_of_Nil: "rows_of [] = []"
  by (simp add: rows_of_def)

lemma answers_b_fails:
  "run_answers rekog_b_fails ''bkt'' 10 70 0 three_keys =
     [(''images/a.jpg'', Inr cat_response),
      (''images/b.jpg'', Inl (error_with_code ''ThrottlingException'')),
      (''images/c.jpg'', Inr cat_response)]"
  by (simp add: three_keys_def rekog_b_fails_def detect_labels_request_def)

lemma answers_down:
  "run_answers rekog_down ''bkt'' 10 70 0 three_keys =
     [(''images/a.jpg'', Inl (error_with_code ''AccessDeniedException'')),
      (''images/b.jpg'', Inl (error_with_code ''AccessDeniedException'')),
      (''images/c.jpg'', Inl (error_with_code ''AccessDeniedException''))]"
  by (simp add: three_keys_def rekog_down_def)

lemma answers_blind:
  "run_answers rekog_blind ''bkt'' 10 70 0 [''images/a.jpg''] =
     [(''images/a.jpg'', Inr empty_response)]"
  by (simp add: rekog_blind_def)

lemma calls_world0: "rekog_calls world0 = 0" and timeline_world0: "timeline world0 = []"
  by (simp_all add: world0_def)

subsection \<open>The bucket provisioner\<close>

lemma ensure_bucket_created:
  "create_bucket_call s3c bucket region = Inr u \<Longrightarrow>
   fst (ensure_bucket s3c bucket region w) = Inr PyNone"
  by (simp add: ensure_bucket_def)

text \<open>
  Claim C1, as the code has it. When the container-creation call fails with a
  \<^verbatim>\<open>ClientError\<close>, the provisioner goes on as after a success exactly when the error
  code is \<^verbatim>\<open>BucketAlreadyOwnedByYou\<close> or \<^verbatim>\<open>BucketAlreadyExists\<close>; with any other code,
  or none, it exits with status 1.
\<close>

theorem ensure_bucket_on_client_error:
  assumes "create_bucket_call s3c bucket region = Inl e"
  shows "fst (ensure_bucket s3c bucket region w) =
           (if error_code e = ''BucketAlreadyOwnedByYou'' \<or> error_code e = ''BucketAlreadyExists''
            then Inr PyNone else Inl (SysExit 1))"
  using assms by (simp add: ensure_bucket_def Let_def)

theorem ensure_bucket_on_client_error_witness:
  "create_bucket_call (s3_answering (Inl (error_with_code ''AccessDenied'')) []) ''photos'' ''eu-west-1''
     = Inl (error_with_code ''AccessDenied'')
   \<and> fst (ensure_bucket (s3_answering (Inl (error_with_code ''AccessDenied'')) []) ''photos''
            ''eu-west-1'' world0) = Inl (SysExit 1)"
proof -
  have call: "create_bucket_call (s3_answering (Inl (error_with_code ''AccessDenied'')) [])
      ''photos'' ''eu-west-1'' = Inl (error_with_code ''AccessDenied'')"
    by (simp add: create_bucket_call_def s3_answering_def)
  have code: "error_code (error_with_code ''AccessDenied'') = ''AccessDenied''"
    by (simp add: error_code_def error_with_code_def)
  show ?thesis
    using ensure_bucket_on_client_error [OF call, of world0] call by (simp add: code)
qed

text \<open>
  The claim as stated fails: the code \<^verbatim>\<open>BucketAlreadyExists\<close>, which S3 reports for
  a name that is taken, is not "already owned by caller", and the run goes on.
\<close>

theorem ensure_bucket_name_taken_counterexample:
  "create_bucket_call (s3_answering (Inl (error_with_code ''BucketAlreadyExists'')) []) ''photos''
      ''us-east-1'' = Inl (error_with_code ''BucketAlreadyExists'')
   \<and> error_code (error_with_code ''BucketAlreadyExists'') \<noteq> ''BucketAlreadyOwnedByYou''
   \<and> fst (ensure_bucket (s3_answering (Inl (error_with_code ''BucketAlreadyExists'')) []) ''photos''
            ''us-east-1'' world0) = Inr PyNone"
  by (simp add: ensure_bucket_def create_bucket_call_def s3_answering_def error_code_def
      error_with_code_def)

subsection \<open>The loops of the uploader and of the lister\<close>

lemma supported_nonempty: "supported f \<Longrightarrow> f \<noteq> []"
  by (auto simp add: supported_def splitext_def rfind_def lower_def IMAGE_EXTS_def)

lemma join_nonempty: "f \<noteq> [] \<Longrightarrow> join r f \<noteq> []"
  by (simp add: join_def)

lemma relpath_returns: "p \<noteq> [] \<Longrightarrow> \<exists>rel. relpath cwd p start = Inr rel"
  by (simp add: relpath_def Let_def split: list.splits)

lemma object_key_returns:
  assumes "supported f"
  shows "\<exists>rel. relpath (getcwd os) (join r f) folder = Inr rel
             \<and> object_key os folder prefix r f = Inr (replace_backslash (join prefix rel))"
proof -
  from assms have "join r f \<noteq> []" by (simp add: supported_nonempty join_nonempty)
  then obtain rel where "relpath (getcwd os) (join r f) folder = Inr rel"
    using relpath_returns by blast
  then show ?thesis by (simp add: object_key_def)
qed

lemma upload_files_spec:
  "\<exists>ups. upload_files os folder b prefix r files n w =
            (Inr (n + length (filter supported files)),
             w\<lparr>stdout := stdout w @ map uploaded_line ups, s3_uploads := s3_uploads w @ ups\<rparr>)
         \<and> map lift_key ups =
             map (\<lambda>f. (join r f, b, object_key os folder prefix r f)) (filter supported files)"
proof (induction files arbitrary: n w)
  case Nil
  show ?case by simp
next
  case (Cons f files)
  show ?case
  proof (cases "supported f")
    case False
    with Cons.IH [of n w] show ?thesis by (simp add: supported_def)
  next
    case True
    then obtain key where key: "object_key os folder prefix r f = Inr key"
      using object_key_returns [of f os r folder prefix] by auto
    let ?w = "print (Uploaded b key) (upload_file (join r f) b key w)"
    from Cons.IH [of "n + 1" ?w] obtain ups where
      run: "upload_files os folder b prefix r files (n + 1) ?w =
            (Inr (n + 1 + length (filter supported files)),
             ?w\<lparr>stdout := stdout ?w @ map uploaded_line ups, s3_uploads := s3_uploads ?w @ ups\<rparr>)"
      and ups: "map lift_key ups =
             map (\<lambda>f. (join r f, b, object_key os folder prefix r f)) (filter supported files)"
      by blast
    have "upload_files os folder b prefix r (f # files) n w =
            (Inr (n + length (filter supported (f # files))),
             w\<lparr>stdout := stdout w @ map uploaded_line ((join r f, b, key) # ups),
               s3_uploads := s3_uploads w @ ((join r f, b, key) # ups)\<rparr>)"
      using True run key
      by (simp add: supported_def Let_def print_def upload_file_def uploaded_line_def)
    moreover have "map lift_key ((join r f, b, key) # ups) =
             map (\<lambda>f. (join r f, b, object_key os folder prefix r f)) (filter supported (f # files))"
      using True ups key by (simp add: lift_key_def)
    ultimately show ?thesis by blast
  qed
qed

lemma upload_walk_spec:
  "\<exists>ups. upload_walk os folder b prefix tree n w =
            (Inr (n + length (image_files tree)),
             w\<lparr>stdout := stdout w @ map uploaded_line ups, s3_uploads := s3_uploads w @ ups\<rparr>)
         \<and> map lift_key ups =
             map (\<lambda>(r, f). (join r f, b, object_key os folder prefix r f)) (image_files tree)"
proof (induction tree arbitrary: n w)
  case Nil
  show ?case by (simp add: image_files_def)
next
  case (Cons d tree)
  obtain r dirs files where d: "d = (r, dirs, files)" by (cases d)
  from upload_files_spec [of os folder b prefix r files n w] obtain ups1 where
    run1: "upload_files os folder b prefix r files n w =
            (Inr (n + length (filter supported files)),
             w\<lparr>stdout := stdout w @ map uploaded_line ups1, s3_uploads := s3_uploads w @ ups1\<rparr>)"
    and ups1: "map lift_key ups1 =
             map (\<lambda>f. (join r f, b, object_key os folder prefix r f)) (filter supported files)"
    by blast
  let ?w = "w\<lparr>stdout := stdout w @ map uploaded_line ups1, s3_uploads := s3_uploads w @ ups1\<rparr>"
  from Cons.IH [of "n + length (filter supported files)" ?w] obtain ups2 where
    run2: "upload_walk os folder b prefix tree (n + length (filter supported files)) ?w =
            (Inr (n + length (filter supported files) + length (image_files tree)),
             ?w\<lparr>stdout := stdout ?w @ map uploaded_line ups2, s3_uploads := s3_uploads ?w @ ups2\<rparr>)"
    and ups2: "map lift_key ups2 =
             map (\<lambda>(r, f). (join r f, b, object_key os folder prefix r f)) (image_files tree)"
    by blast
  have "upload_walk os folder b prefix (d # tree) n w =
            (Inr (n + length (image_files (d # tree))),
             w\<lparr>stdout := stdout w @ map uploaded_line (ups1 @ ups2),
               s3_uploads := s3_uploads w @ (ups1 @ ups2)\<rparr>)"
    using run1 run2 by (simp add: d image_files_def)
  moreover have "map lift_key (ups1 @ ups2) =
             map (\<lambda>(r, f). (join r f, b, object_key os folder prefix r f)) (image_files (d # tree))"
    using ups1 ups2 by (simp add: d image_files_def comp_def)
  ultimately show ?case by blast
qed

lemma lifted_length: "map lift_key ups = map g xs \<Longrightarrow> length ups = length xs"
  using map_eq_imp_length_eq by blast

lemma upload_folder_unfold:
  "isdir os (abspath (getcwd os) folder0) \<Longrightarrow>
   upload_folder_to_s3 os folder0 b prefix w =
     (case upload_walk os (abspath (getcwd os) folder0) b prefix
             (walk os (abspath (getcwd os) folder0)) 0 w of
        (Inl x, w1) \<Rightarrow> (Inl x, w1)
      | (Inr uploaded, w1) \<Rightarrow>
          if uploaded = 0 then (Inl (SysExit 1), print NoImagesFound w1)
          else (Inr PyNone, print (UploadedCount uploaded) w1))"
  by (simp add: upload_folder_to_s3_def Let_def)

lemma upload_folder_spec:
  assumes "isdir os (abspath (getcwd os) folder0)"
  shows "\<exists>ups. upload_folder_to_s3 os folder0 b prefix w =
            (if image_files (walk os (abspath (getcwd os) folder0)) = []
             then (Inl (SysExit 1), print NoImagesFound w)
             else (Inr PyNone,
                   print (UploadedCount (length (image_files (walk os (abspath (getcwd os) folder0)))))
                     (w\<lparr>stdout := stdout w @ map uploaded_line ups,
                        s3_uploads := s3_uploads w @ ups\<rparr>)))
         \<and> map lift_key ups =
             map (\<lambda>(r, f). (join r f, b, object_key os (abspath (getcwd os) folder0) prefix r f))
               (image_files (walk os (abspath (getcwd os) folder0)))"
proof -
  let ?folder = "abspath (getcwd os) folder0"
  from upload_walk_spec [of os ?folder b prefix "walk os ?folder" 0 w] obtain ups where
    both: "upload_walk os ?folder b prefix (walk os ?folder) 0 w =
            (Inr (0 + length (image_files (walk os ?folder))),
             w\<lparr>stdout := stdout w @ map uploaded_line ups, s3_uploads := s3_uploads w @ ups\<rparr>)
         \<and> map lift_key ups =
             map (\<lambda>(r, f). (join r f, b, object_key os ?folder prefix r f))
               (image_files (walk os ?folder))" ..
  note run = conjunct1 [OF both] and ups = conjunct2 [OF both]
  have len: "length ups = length (image_files (walk os ?folder))"
    using ups by (rule lifted_length)
  have "upload_folder_to_s3 os folder0 b prefix w =
            (if image_files (walk os ?folder) = []
             then (Inl (SysExit 1), print NoImagesFound w)
             else (Inr PyNone,
                   print (UploadedCount (length (image_files (walk os ?folder))))
                     (w\<lparr>stdout := stdout w @ map uploaded_line ups,
                        s3_uploads := s3_uploads w @ ups\<rparr>)))"
  proof (cases "image_files (walk os ?folder) = []")
    case True
    with len have "ups = []" by simp
    with True show ?thesis by (simp add: upload_folder_unfold [OF assms] run)
  next
    case False
    then show ?thesis by (simp add: upload_folder_unfold [OF assms] run)
  qed
  with ups show ?thesis by (intro exI [of _ ups] conjI)
qed

lemma upload_folder_not_a_folder:
  "\<not> isdir os (abspath (getcwd os) folder0) \<Longrightarrow>
   upload_folder_to_s3 os folder0 b prefix w =
     (Inl (SysExit 1), print (NotAFolder (abspath (getcwd os) folder0)) w)"
  by (simp add: upload_folder_to_s3_def Let_def)

text \<open>The run on the directory with \<^verbatim>\<open>a.jpg\<close>, \<^verbatim>\<open>b.png\<close> and \<^verbatim>\<open>c.txt\<close>, evaluated.\<close>

lemma abc_folder: "abspath ''/home/user'' ''/data/images'' = ''/data/images''"
  by code_simp
lemma supported_a: "supported ''a.jpg''" by code_simp
lemma supported_b: "supported ''b.png''" by code_simp
lemma supported_c: "\<not> supported ''c.txt''" by code_simp
lemma rel_a: "relpath ''/home/user'' (join ''/data/images'' ''a.jpg'') ''/data/images'' = Inr ''a.jpg''"
  by code_simp
lemma rel_b: "relpath ''/home/user'' (join ''/data/images'' ''b.png'') ''/data/images'' = Inr ''b.png''"
  by code_simp
lemma join_a: "join ''/data/images'' ''a.jpg'' = ''/data/images/a.jpg''" by code_simp
lemma join_b: "join ''/data/images'' ''b.png'' = ''/data/images/b.png''" by code_simp
lemma key_slash_a: "replace_backslash (join ''images/'' ''a.jpg'') = ''images/a.jpg''" by code_simp
lemma key_slash_b: "replace_backslash (join ''images/'' ''b.png'') = ''images/b.png''" by code_simp
lemma key_bare_a: "replace_backslash (join ''images'' ''a.jpg'') = ''images/a.jpg''" by code_simp
lemma key_bare_b: "replace_backslash (join ''images'' ''b.png'') = ''images/b.png''" by code_simp

lemma abc_isdir: "isdir os_abc (abspath (getcwd os_abc) ''/data/images'')"
  by (simp add: os_abc_def abc_folder)

lemma abc_images:
  "image_files (walk os_abc (abspath (getcwd os_abc) ''/data/images'')) =
     [(''/data/images'', ''a.jpg''), (''/data/images'', ''b.png'')]"
  by (simp add: os_abc_def abc_folder image_files_def supported_a supported_b supported_c)

lemma abc_keys:
  "object_key os_abc (abspath (getcwd os_abc) ''/data/images'') prefix ''/data/images'' ''a.jpg''
     = Inr (replace_backslash (join prefix ''a.jpg''))"
  "object_key os_abc (abspath (getcwd os_abc) ''/data/images'') prefix ''/data/images'' ''b.png''
     = Inr (replace_backslash (join prefix ''b.png''))"
  by (simp_all add: object_key_def os_abc_def abc_folder rel_a rel_b)

lemma lift_key_inject: "map lift_key ups = map lift_key ups' \<Longrightarrow> ups = ups'"
proof -
  have "inj lift_key" by (auto simp add: inj_def lift_key_def)
  then show "map lift_key ups = map lift_key ups' \<Longrightarrow> ups = ups'"
    by (simp add: inj_map_eq_map)
qed

lemma abc_run:
  "upload_folder_to_s3 os_abc ''/data/images'' ''bkt'' prefix w =
     (Inr PyNone,
      print (UploadedCount 2)
        (w\<lparr>stdout := stdout w @
             [Uploaded ''bkt'' (replace_backslash (join prefix ''a.jpg'')),
              Uploaded ''bkt'' (replace_backslash (join prefix ''b.png''))],
           s3_uploads := s3_uploads w @
             [(''/data/images/a.jpg'', ''bkt'', replace_backslash (join prefix ''a.jpg'')),
              (''/data/images/b.png'', ''bkt'', replace_backslash (join prefix ''b.png''))]\<rparr>))"
proof -
  let ?ups = "[(''/data/images/a.jpg'', ''bkt'', replace_backslash (join prefix ''a.jpg'')),
              (''/data/images/b.png'', ''bkt'', replace_backslash (join prefix ''b.png''))]"
  from upload_folder_spec [OF abc_isdir, of "''bkt''" prefix w] obtain ups where
    both: "upload_folder_to_s3 os_abc ''/data/images'' ''bkt'' prefix w =
            (if image_files (walk os_abc (abspath (getcwd os_abc) ''/data/images'')) = []
             then (Inl (SysExit 1), print NoImagesFound w)
             else (Inr PyNone,
                   print (UploadedCount (length (image_files (walk os_abc (abspath (getcwd os_abc) ''/data/images'')))))
                     (w\<lparr>stdout := stdout w @ map uploaded_line ups,
                        s3_uploads := s3_uploads w @ ups\<rparr>)))
         \<and> map lift_key ups =
             map (\<lambda>(r, f). (join r f, ''bkt'', object_key os_abc (abspath (getcwd os_abc) ''/data/images'') prefix r f))
               (image_files (walk os_abc (abspath (getcwd os_abc) ''/data/images'')))" ..
  note run = conjunct1 [OF both] and ups = conjunct2 [OF both]
  have "map lift_key ups = map lift_key ?ups"
    using ups by (simp add: abc_images abc_keys join_a join_b lift_key_def)
  then have "ups = ?ups" by (rule lift_key_inject)
  then show ?thesis using run by (simp add: abc_images uploaded_line_def numeral_2_eq_2)
qed

lemma list_page_spec: "list_page objs keys = keys @ filter supported (map Key objs)"
  by (induction objs arbitrary: keys) (simp_all add: supported_def Let_def)

lemma list_pages_spec: "list_pages pages keys = keys @ filter supported (page_keys pages)"
  by (induction pages arbitrary: keys) (simp_all add: page_keys_def list_page_spec)

subsection \<open>The loop of the batch runner\<close>

lemma detect_loop_results:
  "fst (detect_loop rk b ml mc t kis (results, fcsv, w)) =
     results @ successes b (run_answers rk b ml mc (rekog_calls w) (map snd kis))"
proof (induction kis arbitrary: results fcsv w)
  case Nil
  show ?case by simp
next
  case (Cons ki kis)
  obtain i key where ki: "ki = (i, key)" by (cases ki)
  show ?case
  proof (cases "rk (rekog_calls w) (detect_labels_request b key ml mc)")
    case (Inl e)
    then show ?thesis
      using Cons.IH by (simp add: ki detect_labels_for_s3_object_def print_def)
  next
    case (Inr resp)
    then show ?thesis
      using Cons.IH by (simp add: ki detect_labels_for_s3_object_def print_def sleep_def)
  qed
qed

lemma detect_loop_rows:
  "fst (snd (detect_loop rk b ml mc t kis (results, fcsv, w))) =
     fcsv @ rows_of (successes b (run_answers rk b ml mc (rekog_calls w) (map snd kis)))"
proof (induction kis arbitrary: results fcsv w)
  case Nil
  show ?case by (simp add: rows_of_def)
next
  case (Cons ki kis)
  obtain i key where ki: "ki = (i, key)" by (cases ki)
  show ?case
  proof (cases "rk (rekog_calls w) (detect_labels_request b key ml mc)")
    case (Inl e)
    then show ?thesis
      using Cons.IH by (simp add: ki detect_labels_for_s3_object_def print_def)
  next
    case (Inr resp)
    then show ?thesis
      using Cons.IH
      by (simp add: ki detect_labels_for_s3_object_def print_def sleep_def rows_of_def)
  qed
qed

lemma detect_loop_world:
  "snd (snd (detect_loop rk b ml mc t kis (results, fcsv, w))) = w' \<Longrightarrow>
     timeline w' = timeline w @ run_events (run_answers rk b ml mc (rekog_calls w) (map snd kis))
   \<and> rekog_calls w' = rekog_calls w + length kis
   \<and> fs_files w' = fs_files w \<and> fs_dirs w' = fs_dirs w \<and> s3_uploads w' = s3_uploads w"
proof (induction kis arbitrary: results fcsv w)
  case Nil
  then show ?case by simp
next
  case (Cons ki kis)
  obtain i key where ki: "ki = (i, key)" by (cases ki)
  show ?case
  proof (cases "rk (rekog_calls w) (detect_labels_request b key ml mc)")
    case (Inl e)
    then show ?thesis
      using Cons.IH Cons.prems by (simp add: ki detect_labels_for_s3_object_def print_def)
  next
    case (Inr resp)
    then show ?thesis
      using Cons.IH Cons.prems
      by (simp add: ki detect_labels_for_s3_object_def print_def sleep_def)
  qed
qed

lemma out_paths_differ: "join out_dir ''labels.json'' \<noteq> join out_dir ''labels.csv''"
  by (simp add: join_def isabs_def)

text \<open>What a batch leaves behind, in terms of the answers the service gave.\<close>

lemma bulk_world:
  assumes "bulk_detect_and_save rk b keys out_dir ml mc w = (paths, w')"
  shows "paths = (join out_dir ''labels.json'', join out_dir ''labels.csv'')"
    and "json_at w' out_dir = Some (successes b (run_answers rk b ml mc (rekog_calls w) keys))"
    and "csv_rows_at w' out_dir =
           Some (rows_of (successes b (run_answers rk b ml mc (rekog_calls w) keys)))"
    and "timeline w' = timeline w @ run_events (run_answers rk b ml mc (rekog_calls w) keys)"
    and "out_dir \<in> fs_dirs w'"
proof -
  define w2 where "w2 = write_file (join out_dir ''labels.csv'') (CsvDoc []) (makedirs out_dir w)"
  define st where
    "st = detect_loop rk b ml mc (length keys) (enumerate 1 keys) ([], [csv_header], w2)"
  have calls: "rekog_calls w2 = rekog_calls w" and tl: "timeline w2 = timeline w"
    and dirs: "fs_dirs w2 = insert out_dir (fs_dirs w)"
    by (simp_all add: w2_def write_file_def makedirs_def)
  have r: "fst st = successes b (run_answers rk b ml mc (rekog_calls w) keys)"
    using detect_loop_results [of rk b ml mc "length keys" "enumerate 1 keys" "[]" "[csv_header]" w2]
    by (simp add: st_def calls)
  have c: "fst (snd st) =
      csv_header # rows_of (successes b (run_answers rk b ml mc (rekog_calls w) keys))"
    using detect_loop_rows [of rk b ml mc "length keys" "enumerate 1 keys" "[]" "[csv_header]" w2]
    by (simp add: st_def calls)
  have ww: "timeline (snd (snd st)) =
        timeline w @ run_events (run_answers rk b ml mc (rekog_calls w) keys)
      \<and> fs_dirs (snd (snd st)) = insert out_dir (fs_dirs w)"
    using detect_loop_world [of rk b ml mc "length keys" "enumerate 1 keys" "[]" "[csv_header]" w2
        "snd (snd st)"]
    by (simp add: st_def calls tl dirs)
  have w': "w' = print (SavedCSV (join out_dir ''labels.csv''))
               (print (SavedJSON (join out_dir ''labels.json''))
                 (write_file (join out_dir ''labels.json'') (JsonDoc (fst st))
                   (write_file (join out_dir ''labels.csv'') (CsvDoc (fst (snd st)))
                     (snd (snd st)))))"
    and p: "paths = (join out_dir ''labels.json'', join out_dir ''labels.csv'')"
    using assms
    by (auto simp add: bulk_detect_and_save_def Let_def st_def w2_def split: prod.splits)
  show "paths = (join out_dir ''labels.json'', join out_dir ''labels.csv'')" by (rule p)
  show "json_at w' out_dir = Some (successes b (run_answers rk b ml mc (rekog_calls w) keys))"
    by (simp add: w' json_at_def print_def write_file_def r)
  show "csv_rows_at w' out_dir =
      Some (rows_of (successes b (run_answers rk b ml mc (rekog_calls w) keys)))"
    using out_paths_differ [of out_dir]
    by (simp add: w' csv_rows_at_def print_def write_file_def c)
  show "timeline w' = timeline w @ run_events (run_answers rk b ml mc (rekog_calls w) keys)"
    by (simp add: w' print_def write_file_def ww)
  show "out_dir \<in> fs_dirs w'"
    by (simp add: w' print_def write_file_def ww)
qed

lemmas bulk_snd = bulk_world [OF surjective_pairing]

subsection \<open>Describing the outputs of a batch\<close>

lemma paced_run_events:
  "paced (run_events as) = list_all (\<lambda>(k, a). \<not> isl a) (butlast as)"
proof (induction as rule: run_events.induct)
  case 1
  show ?case by simp
next
  case (2 key e answers)
  then show ?case by (cases answers rule: run_events.cases) simp_all
next
  case (3 key resp answers)
  then show ?case by (cases answers rule: run_events.cases) simp_all
qed

lemma calls_of_append: "calls_of (xs @ ys) = calls_of xs @ calls_of ys"
  by (induction xs rule: calls_of.induct) simp_all

lemma map_fst_run_answers: "map fst (run_answers rk b ml mc n keys) = keys"
  by (induction keys arbitrary: n) simp_all

lemma calls_of_run_events: "calls_of (run_events as) = map fst as"
  by (induction as rule: run_events.induct) simp_all

lemma images_of_successes:
  "map image (successes b as) = map (image_uri b) (answered_keys as)"
  by (induction b as rule: successes.induct) (simp_all add: normalize_response_def)

lemma answered_keys_answer:
  "k \<in> set (answered_keys as) \<Longrightarrow> \<exists>resp. (k, Inr resp) \<in> set as"
  by (induction as rule: answered_keys.induct) auto

lemma image_uri_inject: "image_uri b k = image_uri b k' \<Longrightarrow> k = k'"
  by (simp add: image_uri_def)

lemma image_cell_csv_row: "image_cell (csv_row res lab) = Some (image res)"
  by (simp add: image_cell_def csv_row_def)

lemma rows_of_json_labels:
  "rows_of results = map (\<lambda>(res, lab). csv_row res lab) (json_labels results)"
  by (induction results) (simp_all add: rows_of_def json_labels_def comp_def)

lemma length_json_labels:
  "length (json_labels results) = sum_list (map (\<lambda>res. length (labels res)) results)"
  by (induction results) (simp_all add: json_labels_def)

lemma image_cells_of_rows:
  "map image_cell (rows_of results) =
     concat (map (\<lambda>res. replicate (length (labels res)) (Some (image res))) results)"
  by (induction results)
    (simp_all add: rows_of_def image_cell_csv_row comp_def map_replicate_const)

lemma row_image_in_results:
  "row \<in> set (rows_of results) \<Longrightarrow> \<exists>res \<in> set results. image_cell row = Some (image res)"
  by (auto simp add: rows_of_def image_cell_csv_row)

lemma no_failed_key_in_results:
  assumes "\<forall>a. (K, a) \<in> set as \<longrightarrow> isl a"
  shows "image_uri b K \<notin> image ` set (successes b as)"
proof
  assume "image_uri b K \<in> image ` set (successes b as)"
  then have "image_uri b K \<in> set (map image (successes b as))" by simp
  then have "image_uri b K \<in> image_uri b ` set (answered_keys as)"
    by (simp add: images_of_successes)
  then have "K \<in> set (answered_keys as)" by (auto dest: image_uri_inject)
  then obtain resp where "(K, Inr resp) \<in> set as" by (auto dest: answered_keys_answer)
  with assms show False by fastforce
qed

lemma labels_cat: "length (labels (cat_result key)) = 2"
  by (simp add: cat_result_def)

lemma json_b_fails:
  "json_at (snd (bulk_detect_and_save rekog_b_fails ''bkt'' three_keys ''out'' 10 70 world0)) ''out''
     = Some [cat_result ''images/a.jpg'', cat_result ''images/c.jpg'']"
  by (simp add: bulk_snd calls_world0 answers_b_fails normalize_cat)

lemma csv_b_fails:
  "csv_rows_at (snd (bulk_detect_and_save rekog_b_fails ''bkt'' three_keys ''out'' 10 70 world0))
     ''out'' = Some (cat_rows ''images/a.jpg'' @ cat_rows ''images/c.jpg'')"
  by (simp add: bulk_snd calls_world0 answers_b_fails normalize_cat rows_of_cat rows_of_Nil)

subsection \<open>The pause between calls\<close>

text \<open>
  Claim C2, as the code has it. The batch runner sleeps a tenth of a second after
  every call to the label detector that returns, also after the last one, and does
  not sleep after a call that fails with a \<^verbatim>\<open>ClientError\<close>: the events of a batch
  are, for each key in turn, the call and then the pause if the call returned. So
  all successive calls of a batch are a pause apart exactly when no call but the
  last one fails.
\<close>

theorem pause_follows_answered_calls:
  "timeline (snd (bulk_detect_and_save rk b keys out_dir ml mc w)) =
     timeline w @ run_events (run_answers rk b ml mc (rekog_calls w) keys)
   \<and> paced (run_events (run_answers rk b ml mc (rekog_calls w) keys)) =
       list_all (\<lambda>(k, a). \<not> isl a) (butlast (run_answers rk b ml mc (rekog_calls w) keys))"
  by (simp add: bulk_snd paced_run_events)

theorem pause_follows_answered_calls_witness:
  "timeline (snd (bulk_detect_and_save rekog_blind ''bkt'' [''images/a.jpg''] ''out'' 10 70 world0)) =
     [DetectLabelsCall ''images/a.jpg'', Sleep (1 / 10)]"
  using pause_follows_answered_calls [of rekog_blind "''bkt''" "[''images/a.jpg'']" "''out''" 10 70 world0]
  by (simp add: calls_world0 timeline_world0 rekog_blind_def)

text \<open>
  The claim as stated fails: when the call for the second of three keys fails, the
  call for the third follows it with no pause between them.
\<close>

theorem no_pause_after_failed_call_counterexample:
  "timeline (snd (bulk_detect_and_save rekog_b_fails ''bkt'' three_keys ''out'' 10 70 world0)) =
     [DetectLabelsCall ''images/a.jpg'', Sleep (1 / 10), DetectLabelsCall ''images/b.jpg'',
      DetectLabelsCall ''images/c.jpg'', Sleep (1 / 10)]
   \<and> \<not> paced (timeline
         (snd (bulk_detect_and_save rekog_b_fails ''bkt'' three_keys ''out'' 10 70 world0)))"
  by (simp add: bulk_snd calls_world0 timeline_world0 answers_b_fails)

subsection \<open>A key whose detection fails\<close>

text \<open>
  Claim C3. If every call that the batch makes for key \<open>K\<close> fails with a
  \<^verbatim>\<open>ClientError\<close> (for a key listed once, that is its one call), then no result of the
  JSON document and no row of the CSV document carries the image of \<open>K\<close>; the batch
  still calls the detector for every key of the sequence, in order, and writes both
  documents; and the images of the JSON results, and of the CSV rows, are those of the
  keys whose call returned, in the order of the listing.
\<close>

theorem failed_key_absent_from_outputs:
  assumes "\<forall>a. (K, a) \<in> set (run_answers rk b ml mc (rekog_calls w) keys) \<longrightarrow> isl a"
  shows "\<exists>results rows.
           json_at (snd (bulk_detect_and_save rk b keys out_dir ml mc w)) out_dir = Some results
         \<and> csv_rows_at (snd (bulk_detect_and_save rk b keys out_dir ml mc w)) out_dir = Some rows
         \<and> image_uri b K \<notin> image ` set results
         \<and> Some (image_uri b K) \<notin> image_cell ` set rows
         \<and> calls_of (timeline (snd (bulk_detect_and_save rk b keys out_dir ml mc w)))
             = calls_of (timeline w) @ keys
         \<and> map image results
             = map (image_uri b) (answered_keys (run_answers rk b ml mc (rekog_calls w) keys))
         \<and> map image_cell rows
             = concat (map (\<lambda>res. replicate (length (labels res)) (Some (image res))) results)"
proof -
  let ?as = "run_answers rk b ml mc (rekog_calls w) keys"
  have absent: "image_uri b K \<notin> image ` set (successes b ?as)"
    using assms by (rule no_failed_key_in_results)
  have "Some (image_uri b K) \<notin> image_cell ` set (rows_of (successes b ?as))"
  proof
    assume "Some (image_uri b K) \<in> image_cell ` set (rows_of (successes b ?as))"
    then obtain row where "row \<in> set (rows_of (successes b ?as))"
      and "image_cell row = Some (image_uri b K)" by auto
    then obtain res where "res \<in> set (successes b ?as)" and "image res = image_uri b K"
      by (auto dest: row_image_in_results)
    with absent show False by force
  qed
  with absent show ?thesis
    by (simp add: bulk_snd calls_of_append calls_of_run_events map_fst_run_answers
        images_of_successes image_cells_of_rows)
qed

theorem failed_key_absent_from_outputs_witness:
  "json_at (snd (bulk_detect_and_save rekog_b_fails ''bkt'' three_keys ''out'' 10 70 world0)) ''out''
     = Some [cat_result ''images/a.jpg'', cat_result ''images/c.jpg'']
   \<and> csv_rows_at (snd (bulk_detect_and_save rekog_b_fails ''bkt'' three_keys ''out'' 10 70 world0))
       ''out'' = Some (cat_rows ''images/a.jpg'' @ cat_rows ''images/c.jpg'')
   \<and> image_uri ''bkt'' ''images/b.jpg''
       \<notin> image ` set [cat_result ''images/a.jpg'', cat_result ''images/c.jpg'']
   \<and> Some (image_uri ''bkt'' ''images/b.jpg'')
       \<notin> image_cell ` set (cat_rows ''images/a.jpg'' @ cat_rows ''images/c.jpg'')
   \<and> calls_of (timeline
         (snd (bulk_detect_and_save rekog_b_fails ''bkt'' three_keys ''out'' 10 70 world0)))
       = three_keys"
proof -
  let ?w = "snd (bulk_detect_and_save rekog_b_fails ''bkt'' three_keys ''out'' 10 70 world0)"
  have failed: "\<forall>a. (''images/b.jpg'', a)
      \<in> set (run_answers rekog_b_fails ''bkt'' 10 70 (rekog_calls world0) three_keys) \<longrightarrow> isl a"
    by (simp add: calls_world0 answers_b_fails)
  from failed_key_absent_from_outputs [OF failed, of "''out''"]
  obtain results rows where "json_at ?w ''out'' = Some results"
    and "csv_rows_at ?w ''out'' = Some rows"
    and "image_uri ''bkt'' ''images/b.jpg'' \<notin> image ` set results"
    and "Some (image_uri ''bkt'' ''images/b.jpg'') \<notin> image_cell ` set rows"
    and "calls_of (timeline ?w) = calls_of (timeline world0) @ three_keys"
    by blast
  with json_b_fails csv_b_fails show ?thesis by (simp add: timeline_world0)
qed

subsection \<open>The CSV rows and the JSON labels\<close>

text \<open>
  Claim C4. After every run of the batch runner both documents exist, the number of
  data rows of the CSV document is the sum of the numbers of labels of the JSON
  results, the rows are the rows of the labels of the JSON document one for one and
  in order, the image of every row is the image of a JSON result, and every label of
  every JSON result has its row, with the image of that result.
\<close>

theorem csv_rows_match_json_labels:
  "\<exists>results rows.
      json_at (snd (bulk_detect_and_save rk b keys out_dir ml mc w)) out_dir = Some results
    \<and> csv_rows_at (snd (bulk_detect_and_save rk b keys out_dir ml mc w)) out_dir = Some rows
    \<and> length rows = sum_list (map (\<lambda>res. length (labels res)) results)
    \<and> rows = map (\<lambda>(res, lab). csv_row res lab) (json_labels results)
    \<and> (\<forall>row \<in> set rows. \<exists>res \<in> set results. image_cell row = Some (image res))
    \<and> (\<forall>res \<in> set results. \<forall>lab \<in> set (labels res).
          csv_row res lab \<in> set rows \<and> image_cell (csv_row res lab) = Some (image res))"
proof -
  let ?rs = "successes b (run_answers rk b ml mc (rekog_calls w) keys)"
  have len: "length (rows_of ?rs) = sum_list (map (\<lambda>res. length (labels res)) ?rs)"
    by (simp add: rows_of_json_labels length_json_labels)
  have each_label:
    "\<forall>res \<in> set ?rs. \<forall>lab \<in> set (labels res). csv_row res lab \<in> set (rows_of ?rs)"
    by (auto simp add: rows_of_def)
  have each_row:
    "\<forall>row \<in> set (rows_of ?rs). \<exists>res \<in> set ?rs. image_cell row = Some (image res)"
    by (auto dest: row_image_in_results)
  show ?thesis
    using len each_label each_row rows_of_json_labels [of ?rs]
    by (simp add: bulk_snd image_cell_csv_row)
qed

theorem csv_rows_match_json_labels_witness:
  "json_at (snd (bulk_detect_and_save rekog_b_fails ''bkt'' three_keys ''out'' 10 70 world0)) ''out''
      = Some [cat_result ''images/a.jpg'', cat_result ''images/c.jpg'']
    \<and> csv_rows_at (snd (bulk_detect_and_save rekog_b_fails ''bkt'' three_keys ''out'' 10 70 world0))
        ''out'' = Some (cat_rows ''images/a.jpg'' @ cat_rows ''images/c.jpg'')
    \<and> length (cat_rows ''images/a.jpg'' @ cat_rows ''images/c.jpg'')
      = sum_list (map (\<lambda>res. length (labels res))
          [cat_result ''images/a.jpg'', cat_result ''images/c.jpg''])"
proof -
  let ?w = "snd (bulk_detect_and_save rekog_b_fails ''bkt'' three_keys ''out'' 10 70 world0)"
  from csv_rows_match_json_labels [of rekog_b_fails "''bkt''" three_keys "''out''" 10 70 world0]
  obtain results rows where "json_at ?w ''out'' = Some results"
    and "csv_rows_at ?w ''out'' = Some rows"
    and "length rows = sum_list (map (\<lambda>res. length (labels res)) results)"
    by blast
  with json_b_fails csv_b_fails show ?thesis by simp
qed

subsection \<open>Relative paths and keys\<close>

lemma split_sep_no_sep: "x \<in> set (split_sep p) \<Longrightarrow> CHR ''/'' \<notin> set x"
  by (induction p arbitrary: x) (auto split: if_splits list.splits)

lemma join_relative:
  "a \<noteq> [] \<Longrightarrow> \<not> isabs a \<Longrightarrow> \<not> isabs b \<Longrightarrow> join a b \<noteq> [] \<and> \<not> isabs (join a b)"
  by (cases a) (simp_all add: join_def isabs_def)

lemma join_all_relative:
  "a \<noteq> [] \<Longrightarrow> \<not> isabs a \<Longrightarrow> \<forall>b \<in> set p. \<not> isabs b \<Longrightarrow> \<not> isabs (join_all a p)"
proof (induction p arbitrary: a)
  case Nil
  then show ?case by (simp add: join_all_def)
next
  case (Cons b p)
  then have "join a b \<noteq> [] \<and> \<not> isabs (join a b)" by (simp add: join_relative)
  with Cons.IH [of "join a b"] Cons.prems show ?case by (simp add: join_all_def)
qed

lemma component_relative: "x \<noteq> [] \<Longrightarrow> CHR ''/'' \<notin> set x \<Longrightarrow> \<not> isabs x"
  by (cases x) (auto simp add: isabs_def)

lemma relpath_relative:
  assumes "relpath cwd p start = Inr rel"
  shows "\<not> isabs rel"
proof -
  define start_list where "start_list = filter (\<lambda>x. x \<noteq> []) (split_sep (abspath cwd start))"
  define path_list where "path_list = filter (\<lambda>x. x \<noteq> []) (split_sep (abspath cwd p))"
  define rel_list where
    "rel_list = replicate (length start_list - length (commonprefix start_list path_list)) ''..''
        @ drop (length (commonprefix start_list path_list)) path_list"
  have parts: "\<forall>x \<in> set rel_list. x \<noteq> [] \<and> \<not> isabs x"
  proof
    fix x assume "x \<in> set rel_list"
    then consider "x = ''..''" | "x \<in> set path_list"
      by (auto simp add: rel_list_def dest: in_set_dropD)
    then show "x \<noteq> [] \<and> \<not> isabs x"
    proof cases
      case 1
      then show ?thesis by (simp add: isabs_def)
    next
      case 2
      then have "x \<noteq> []" and "CHR ''/'' \<notin> set x"
        by (auto simp add: path_list_def dest: split_sep_no_sep)
      then show ?thesis by (simp add: component_relative)
    qed
  qed
  from assms have rel: "rel = (case rel_list of [] \<Rightarrow> ''.'' | a # q \<Rightarrow> join_all a q)"
    by (auto simp add: relpath_def Let_def rel_list_def start_list_def path_list_def
        split: if_splits list.splits)
  show ?thesis
  proof (cases rel_list)
    case Nil
    with rel show ?thesis by (simp add: isabs_def)
  next
    case (Cons a q)
    with parts have "a \<noteq> []" "\<not> isabs a" "\<forall>b \<in> set q. \<not> isabs b" by auto
    then have "\<not> isabs (join_all a q)" by (rule join_all_relative)
    with rel Cons show ?thesis by simp
  qed
qed

lemma join_prefix:
  "\<not> isabs rel \<Longrightarrow>
   join prefix rel = (if prefix = [] \<or> last prefix = CHR ''/'' then prefix @ rel
                      else prefix @ ''/'' @ rel)"
  by (simp add: join_def)

lemma set_image_files:
  "set (image_files tree) =
     {(r, f). \<exists>dirs files. (r, dirs, files) \<in> set tree \<and> f \<in> set files
        \<and> lower (snd (splitext f)) \<in> IMAGE_EXTS}"
  by (auto simp add: image_files_def supported_def)

lemma replace_backslash_none: "CHR 0x5C \<notin> set (replace_backslash s)"
  by (auto simp add: replace_backslash_def)

lemma replace_backslash_same: "CHR 0x5C \<notin> set s \<Longrightarrow> replace_backslash s = s"
  by (induction s) (auto simp add: replace_backslash_def)

subsection \<open>The uploader\<close>

text \<open>
  Claim C5, as the code has it. The uploader returns no value (\<^verbatim>\<open>None\<close>); the
  count of the files it uploaded is what its last line of output reports. It exits
  with status 1, having uploaded nothing, exactly when the source is not a directory
  or no file of the walk has a supported extension; otherwise it uploads as many
  files as the walk has files with a supported extension. For a directory that holds
  \<^verbatim>\<open>a.jpg\<close>, \<^verbatim>\<open>b.png\<close> and \<^verbatim>\<open>c.txt\<close> it uploads the first two and
  reports the count 2.
\<close>

theorem uploader_reports_count:
  "let folder = abspath (getcwd os) folder0;
       n = length (image_files (walk os folder));
       r = upload_folder_to_s3 os folder0 bucket prefix w
   in (if isdir os folder \<and> n \<noteq> 0
       then fst r = Inr PyNone
          \<and> length (s3_uploads (snd r)) = length (s3_uploads w) + n
          \<and> last (stdout (snd r)) = UploadedCount n
       else fst r = Inl (SysExit 1)
          \<and> s3_uploads (snd r) = s3_uploads w
          \<and> last (stdout (snd r)) = (if isdir os folder then NoImagesFound else NotAFolder folder))"
proof (cases "isdir os (abspath (getcwd os) folder0)")
  case False
  then show ?thesis by (simp add: upload_folder_not_a_folder Let_def print_def)
next
  case True
  let ?folder = "abspath (getcwd os) folder0"
  from upload_folder_spec [OF True, of bucket prefix w] obtain ups where
    both: "upload_folder_to_s3 os folder0 bucket prefix w =
            (if image_files (walk os ?folder) = []
             then (Inl (SysExit 1), print NoImagesFound w)
             else (Inr PyNone,
                   print (UploadedCount (length (image_files (walk os ?folder))))
                     (w\<lparr>stdout := stdout w @ map uploaded_line ups,
                        s3_uploads := s3_uploads w @ ups\<rparr>)))
         \<and> map lift_key ups =
             map (\<lambda>(r, f). (join r f, bucket, object_key os ?folder prefix r f))
               (image_files (walk os ?folder))" ..
  note run = conjunct1 [OF both] and ups = conjunct2 [OF both]
  have len: "length ups = length (image_files (walk os ?folder))"
    using ups by (rule lifted_length)
  show ?thesis using True by (simp add: run len Let_def print_def)
qed

theorem uploader_reports_count_witness:
  "fst (upload_folder_to_s3 os_abc ''/data/images'' ''bkt'' ''images/'' world0) = Inr PyNone
   \<and> s3_uploads (snd (upload_folder_to_s3 os_abc ''/data/images'' ''bkt'' ''images/'' world0)) =
       [(''/data/images/a.jpg'', ''bkt'', ''images/a.jpg''),
        (''/data/images/b.png'', ''bkt'', ''images/b.png'')]
   \<and> last (stdout (snd (upload_folder_to_s3 os_abc ''/data/images'' ''bkt'' ''images/'' world0)))
       = UploadedCount 2"
proof -
  have "last (stdout (snd (upload_folder_to_s3 os_abc ''/data/images'' ''bkt'' ''images/'' world0)))
       = UploadedCount 2"
    using uploader_reports_count [of os_abc "''/data/images''" "''bkt''" "''images/''" world0]
    by (simp add: Let_def abc_isdir abc_images)
  then show ?thesis
    by (simp add: abc_run key_slash_a key_slash_b print_def world0_def)
qed

text \<open>
  The claim as stated fails: on that directory the uploader uploads two files and
  returns \<^verbatim>\<open>None\<close>, not the count 2.
\<close>

theorem uploader_returns_none_counterexample:
  "fst (upload_folder_to_s3 os_abc ''/data/images'' ''bkt'' ''images/'' world0) = Inr PyNone
   \<and> fst (upload_folder_to_s3 os_abc ''/data/images'' ''bkt'' ''images/'' world0) \<noteq> Inr (PyInt 2)
   \<and> length (s3_uploads
        (snd (upload_folder_to_s3 os_abc ''/data/images'' ''bkt'' ''images/'' world0))) = 2"
  by (simp add: abc_run print_def world0_def)

text \<open>
  Claim C6, as the code has it. For an existing source directory, the uploads are,
  in the order of the walk, the files that \<^verbatim>\<open>os.walk\<close> yields whose lowercase extension
  is \<^verbatim>\<open>.jpg\<close>, \<^verbatim>\<open>.jpeg\<close> or \<^verbatim>\<open>.png\<close>, and no others. The key of each is
  \<^verbatim>\<open>os.path.join(prefix, relative path)\<close> with every backslash replaced by a slash:
  the prefix followed by the relative path when the prefix is empty or ends with a
  slash, and with a slash put between them otherwise; a key without a backslash is
  left as it is.
\<close>

theorem uploader_keys_of_image_files:
  assumes "isdir os (abspath (getcwd os) folder0)"
  shows "\<exists>ups.
      s3_uploads (snd (upload_folder_to_s3 os folder0 bucket prefix w)) = s3_uploads w @ ups
    \<and> map lift_key ups =
        map (\<lambda>(r, f). (join r f, bucket, object_key os (abspath (getcwd os) folder0) prefix r f))
          (image_files (walk os (abspath (getcwd os) folder0)))
    \<and> set (image_files (walk os (abspath (getcwd os) folder0))) =
        {(r, f). \<exists>dirs files. (r, dirs, files) \<in> set (walk os (abspath (getcwd os) folder0))
           \<and> f \<in> set files \<and> lower (snd (splitext f)) \<in> IMAGE_EXTS}
    \<and> (\<forall>(r, f) \<in> set (image_files (walk os (abspath (getcwd os) folder0))).
          \<exists>rel. relpath (getcwd os) (join r f) (abspath (getcwd os) folder0) = Inr rel
              \<and> object_key os (abspath (getcwd os) folder0) prefix r f
                   = Inr (replace_backslash (join prefix rel))
              \<and> join prefix rel =
                   (if prefix = [] \<or> last prefix = CHR ''/'' then prefix @ rel
                    else prefix @ ''/'' @ rel)
              \<and> CHR 0x5C \<notin> set (replace_backslash (join prefix rel))
              \<and> (CHR 0x5C \<notin> set (join prefix rel)
                   \<longrightarrow> replace_backslash (join prefix rel) = join prefix rel))"
proof -
  let ?folder = "abspath (getcwd os) folder0"
  from upload_folder_spec [OF assms, of bucket prefix w] obtain ups where
    both: "upload_folder_to_s3 os folder0 bucket prefix w =
            (if image_files (walk os ?folder) = []
             then (Inl (SysExit 1), print NoImagesFound w)
             else (Inr PyNone,
                   print (UploadedCount (length (image_files (walk os ?folder))))
                     (w\<lparr>stdout := stdout w @ map uploaded_line ups,
                        s3_uploads := s3_uploads w @ ups\<rparr>)))
         \<and> map lift_key ups =
             map (\<lambda>(r, f). (join r f, bucket, object_key os ?folder prefix r f))
               (image_files (walk os ?folder))" ..
  note run = conjunct1 [OF both] and ups = conjunct2 [OF both]
  have len: "length ups = length (image_files (walk os ?folder))"
    using ups by (rule lifted_length)
  have uploads: "s3_uploads (snd (upload_folder_to_s3 os folder0 bucket prefix w)) = s3_uploads w @ ups"
  proof (cases "image_files (walk os ?folder) = []")
    case True
    with len have "ups = []" by simp
    with True show ?thesis by (simp add: run print_def)
  next
    case False
    then show ?thesis by (simp add: run print_def)
  qed
  have keys: "\<forall>(r, f) \<in> set (image_files (walk os ?folder)).
          \<exists>rel. relpath (getcwd os) (join r f) ?folder = Inr rel
              \<and> object_key os ?folder prefix r f = Inr (replace_backslash (join prefix rel))
              \<and> join prefix rel =
                   (if prefix = [] \<or> last prefix = CHR ''/'' then prefix @ rel
                    else prefix @ ''/'' @ rel)
              \<and> CHR 0x5C \<notin> set (replace_backslash (join prefix rel))
              \<and> (CHR 0x5C \<notin> set (join prefix rel)
                   \<longrightarrow> replace_backslash (join prefix rel) = join prefix rel)"
  proof (clarify)
    fix r f assume "(r, f) \<in> set (image_files (walk os ?folder))"
    then have "supported f" by (auto simp add: image_files_def)
    from object_key_returns [OF this, of os r ?folder prefix] obtain rel where
      rel: "relpath (getcwd os) (join r f) ?folder = Inr rel"
      and key: "object_key os ?folder prefix r f = Inr (replace_backslash (join prefix rel))"
      by auto
    from rel have "\<not> isabs rel" by (rule relpath_relative)
    then have "join prefix rel =
                   (if prefix = [] \<or> last prefix = CHR ''/'' then prefix @ rel
                    else prefix @ ''/'' @ rel)" by (rule join_prefix)
    with rel key show "\<exists>rel. relpath (getcwd os) (join r f) ?folder = Inr rel
              \<and> object_key os ?folder prefix r f = Inr (replace_backslash (join prefix rel))
              \<and> join prefix rel =
                   (if prefix = [] \<or> last prefix = CHR ''/'' then prefix @ rel
                    else prefix @ ''/'' @ rel)
              \<and> CHR 0x5C \<notin> set (replace_backslash (join prefix rel))
              \<and> (CHR 0x5C \<notin> set (join prefix rel)
                   \<longrightarrow> replace_backslash (join prefix rel) = join prefix rel)"
      using replace_backslash_none [of "join prefix rel"] replace_backslash_same [of "join prefix rel"]
      by (intro exI [of _ rel] conjI impI) simp_all
  qed
  from uploads ups set_image_files [of "walk os ?folder"] keys show ?thesis
    by (intro exI [of _ ups] conjI)
qed

theorem uploader_keys_of_image_files_witness:
  "isdir os_abc (abspath (getcwd os_abc) ''/data/images'')
   \<and> s3_uploads (snd (upload_folder_to_s3 os_abc ''/data/images'' ''bkt'' ''images/'' world0)) =
       [(''/data/images/a.jpg'', ''bkt'', ''images/a.jpg''),
        (''/data/images/b.png'', ''bkt'', ''images/b.png'')]
   \<and> image_files (walk os_abc (abspath (getcwd os_abc) ''/data/images'')) =
       [(''/data/images'', ''a.jpg''), (''/data/images'', ''b.png'')]"
proof -
  from uploader_keys_of_image_files [OF abc_isdir, of "''bkt''" "''images/''" world0]
  obtain ups where
    "s3_uploads (snd (upload_folder_to_s3 os_abc ''/data/images'' ''bkt'' ''images/'' world0))
       = s3_uploads world0 @ ups"
    by blast
  then show ?thesis
    by (simp add: abc_isdir abc_images abc_run key_slash_a key_slash_b print_def world0_def)
qed

text \<open>
  The claim as stated fails: with the prefix \<^verbatim>\<open>images\<close>, which has no slash at its
  end, the file \<^verbatim>\<open>a.jpg\<close> of the root is stored under \<^verbatim>\<open>images/a.jpg\<close>, which is
  not the prefix followed by the relative path.
\<close>

theorem uploader_key_bare_prefix_counterexample:
  "s3_uploads (snd (upload_folder_to_s3 os_abc ''/data/images'' ''bkt'' ''images'' world0)) =
       [(''/data/images/a.jpg'', ''bkt'', ''images/a.jpg''),
        (''/data/images/b.png'', ''bkt'', ''images/b.png'')]
   \<and> relpath (getcwd os_abc) (join ''/data/images'' ''a.jpg'') (abspath (getcwd os_abc) ''/data/images'')
       = Inr ''a.jpg''
   \<and> ''images/a.jpg'' \<noteq> ''images'' @ ''a.jpg''"
proof -
  have "s3_uploads (snd (upload_folder_to_s3 os_abc ''/data/images'' ''bkt'' ''images'' world0)) =
       [(''/data/images/a.jpg'', ''bkt'', ''images/a.jpg''),
        (''/data/images/b.png'', ''bkt'', ''images/b.png'')]"
    by (simp add: abc_run key_bare_a key_bare_b print_def world0_def)
  moreover have "relpath (getcwd os_abc) (join ''/data/images'' ''a.jpg'')
      (abspath (getcwd os_abc) ''/data/images'') = Inr ''a.jpg''"
    by (simp add: os_abc_def abc_folder rel_a)
  ultimately show ?thesis by simp
qed

end
